theory Spec2Isabelle
  imports Main
begin

section \<open>Data model (backend/init.sql)\<close>

text \<open>
  The three tables of \<^verbatim>\<open>init.sql\<close> are lists of rows in insertion order. Amounts of type
  \<^verbatim>\<open>DECIMAL(10, 2)\<close> are integers counting cents, so \<^verbatim>\<open>1299.99\<close> is \<open>129999\<close>;
  \<^verbatim>\<open>INTEGER\<close> columns are integers with the 32-bit range checked on every write, because
  PostgreSQL raises an error instead of wrapping. The \<^verbatim>\<open>SERIAL\<close> sequences are counters
  kept with the tables. The columns \<^verbatim>\<open>created_at\<close> and \<^verbatim>\<open>updated_at\<close> are not part of
  the model: rows are kept in insertion order, which is the order of \<^verbatim>\<open>created_at\<close>.
\<close>

record product =
  p_id :: nat
  p_name :: string
  p_description :: "string option"
  p_price :: int
  p_category :: string
  p_stock :: int
  p_image_url :: "string option"
  p_is_active :: bool

datatype order_status = Pending | Processing | Shipped | Delivered | Cancelled

record order =
  o_id :: nat
  o_customer_name :: string
  o_customer_email :: string
  o_total_amount :: int
  o_status :: order_status

record order_item =
  oi_id :: nat
  oi_order_id :: nat
  oi_product_id :: nat
  oi_quantity :: int
  oi_price :: int

record database =
  products :: "product list"
  orders :: "order list"
  order_items :: "order_item list"
  products_id_seq :: nat
  orders_id_seq :: nat
  order_items_id_seq :: nat

text \<open>
  Everything a handler can catch: the two errors thrown by the order handler itself, the
  errors PostgreSQL raises for a violated column constraint or for a parameter that is no
  integer, the \<^verbatim>\<open>TypeError\<close> of reading \<^verbatim>\<open>rows[0].price\<close> of an empty result, and a
  rejected Redis command.
\<close>

datatype exn =
    ProductNotFound nat
  | InsufficientStock nat
  | NotNullViolation
  | CheckViolation
  | NumericOverflow
  | IntegerOutOfRange
  | InvalidTextRepresentation
  | ValueTooLong
  | ForeignKeyViolation
  | TypeError
  | RedisError

text \<open>The error responses: status 400, 404 and 500.\<close>

datatype error = MissingFields | InvalidStatus | NotFound | Internal exn

definition numeric_10_2 :: "int \<Rightarrow> bool" where
  "numeric_10_2 c \<longleftrightarrow> - 10000000000 < c \<and> c < 10000000000"

definition int4 :: "int \<Rightarrow> bool" where
  "int4 x \<longleftrightarrow> - 2147483648 \<le> x \<and> x \<le> 2147483647"

definition coalesce :: "'a option \<Rightarrow> 'a \<Rightarrow> 'a" where
  "coalesce x y = (case x of None \<Rightarrow> y | Some v \<Rightarrow> v)"

subsection \<open>Route parameters as integers\<close>

text \<open>
  The handlers pass the route parameter \<^verbatim>\<open>req.params.id\<close>, a string, as the parameter of
  \<^verbatim>\<open>WHERE id = $n\<close>, where PostgreSQL reads it as an \<^verbatim>\<open>INTEGER\<close>: white space, an optional
  sign, decimal digits, white space. So \<^verbatim>\<open>1\<close>, \<^verbatim>\<open>01\<close> and \<^verbatim>\<open>+1\<close> all address the row
  with id 1. Any other text is an error of the statement (spellings that only some
  versions of PostgreSQL read, as \<^verbatim>\<open>0x1\<close>, are taken as errors).
\<close>

definition is_space :: "char \<Rightarrow> bool" where
  "is_space c \<longleftrightarrow> c \<in> set [CHR '' '', CHR 0x09, CHR 0x0A, CHR 0x0B, CHR 0x0C, CHR 0x0D]"

definition is_digit :: "char \<Rightarrow> bool" where
  "is_digit c \<longleftrightarrow> c \<in> set ''0123456789''"

definition digit_value :: "char \<Rightarrow> int" where
  "digit_value c = int (length (takeWhile (\<lambda>d. d \<noteq> c) ''0123456789''))"

fun decimal :: "int \<Rightarrow> string \<Rightarrow> int" where
  "decimal acc [] = acc"
| "decimal acc (c # cs) = decimal (10 * acc + digit_value c) cs"

definition int4in :: "string \<Rightarrow> exn + int" where
  "int4in str =
     (let body = dropWhile is_space str;
          negative = (case body of c # _ \<Rightarrow> c = CHR ''-'' | [] \<Rightarrow> False);
          unsigned = (case body of
                        c # cs \<Rightarrow> if c = CHR ''-'' \<or> c = CHR ''+'' then cs else body
                      | [] \<Rightarrow> []);
          digits = takeWhile is_digit unsigned;
          trailing = dropWhile is_space (dropWhile is_digit unsigned);
          n = (if negative then - decimal 0 digits else decimal 0 digits)
      in if digits = [] \<or> trailing \<noteq> [] then Inl InvalidTextRepresentation
         else if \<not> int4 n then Inl IntegerOutOfRange
         else Inr n)"

subsection \<open>Statements on products\<close>

text \<open>The column constraints of a products row: lengths, ranges, then the two CHECKs.\<close>

definition product_violation :: "product \<Rightarrow> exn option" where
  "product_violation p =
     (if 255 < length (p_name p) \<or> 100 < length (p_category p) then Some ValueTooLong
      else if \<not> numeric_10_2 (p_price p) then Some NumericOverflow
      else if \<not> int4 (p_stock p) then Some IntegerOutOfRange
      else if p_price p < 0 \<or> p_stock p < 0 then Some CheckViolation
      else None)"

text \<open>
  \<^verbatim>\<open>INSERT INTO products (name, description, price, category, stock, image_url)
  VALUES ($1, $2, $3, $4, $5, $6) RETURNING *\<close>. The default of \<^verbatim>\<open>id\<close> takes the next
  value of the sequence before the row is checked, and a sequence never goes back: a
  failed insert returns the error with the store it leaves, the value consumed. Only a
  parameter that is no \<^verbatim>\<open>INTEGER\<close> is refused before the statement runs.
\<close>

definition insert_product ::
  "string option \<Rightarrow> string option \<Rightarrow> int option \<Rightarrow> string option \<Rightarrow> int \<Rightarrow> string option
     \<Rightarrow> database \<Rightarrow> exn \<times> database + product \<times> database" where
  "insert_product nm descr pr cat st img d =
     (let d1 = d\<lparr>products_id_seq := Suc (products_id_seq d)\<rparr>
      in if \<not> int4 st then Inl (IntegerOutOfRange, d)
         else case (nm, pr, cat) of
           (Some n, Some pc, Some c) \<Rightarrow>
             (let row = \<lparr>p_id = products_id_seq d, p_name = n, p_description = descr,
                         p_price = pc, p_category = c, p_stock = st, p_image_url = img,
                         p_is_active = True\<rparr>
              in case product_violation row of
                   Some e \<Rightarrow> Inl (e, d1)
                 | None \<Rightarrow> Inr (row, d1\<lparr>products := products d @ [row]\<rparr>))
         | _ \<Rightarrow> Inl (NotNullViolation, d1))"

record product_fields =
  f_name :: "string option"
  f_description :: "string option"
  f_price :: "int option"
  f_category :: "string option"
  f_stock :: "int option"
  f_image_url :: "string option"

definition set_columns :: "product_fields \<Rightarrow> product \<Rightarrow> product" where
  "set_columns f p =
     p\<lparr>p_name := coalesce (f_name f) (p_name p),
       p_description := (case f_description f of None \<Rightarrow> p_description p | Some v \<Rightarrow> Some v),
       p_price := coalesce (f_price f) (p_price p),
       p_category := coalesce (f_category f) (p_category p),
       p_stock := coalesce (f_stock f) (p_stock p),
       p_image_url := (case f_image_url f of None \<Rightarrow> p_image_url p | Some v \<Rightarrow> Some v)\<rparr>"

text \<open>
  \<^verbatim>\<open>UPDATE products SET name = COALESCE($1, name), ... WHERE id = $7 AND is_active = true
  RETURNING *\<close>, with \<open>$7\<close> read as the integer \<open>n\<close>: the rows changed, or the first
  constraint one of them violates.
\<close>

definition update_products ::
  "product_fields \<Rightarrow> int \<Rightarrow> database \<Rightarrow> exn + (product list \<times> database)" where
  "update_products f n d =
     (let hit = (\<lambda>p. int (p_id p) = n \<and> p_is_active p);
          rows = map (set_columns f) (filter hit (products d))
      in case List.map_filter product_violation rows of
           e # _ \<Rightarrow> Inl e
         | [] \<Rightarrow> Inr (rows, d\<lparr>products :=
                    map (\<lambda>p. if hit p then set_columns f p else p) (products d)\<rparr>))"

text \<open>
  \<^verbatim>\<open>UPDATE products SET is_active = false WHERE id = $1 RETURNING id\<close>, with \<open>$1\<close> read as
  the integer \<open>n\<close>.
\<close>

definition deactivate_products :: "int \<Rightarrow> database \<Rightarrow> nat list \<times> database" where
  "deactivate_products n d =
     (map p_id (filter (\<lambda>p. int (p_id p) = n) (products d)),
      d\<lparr>products :=
          map (\<lambda>p. if int (p_id p) = n then p\<lparr>p_is_active := False\<rparr> else p) (products d)\<rparr>)"

text \<open>
  \<^verbatim>\<open>UPDATE products SET stock = stock - $1 WHERE id = $2\<close>, both parameters numbers of the
  request body.
\<close>

definition decrement_stock :: "int \<Rightarrow> nat \<Rightarrow> database \<Rightarrow> exn + database" where
  "decrement_stock q i d =
     (if \<not> int4 q then Inl IntegerOutOfRange
      else
        let rows = map (\<lambda>p. p\<lparr>p_stock := p_stock p - q\<rparr>) (filter (\<lambda>p. p_id p = i) (products d))
        in case List.map_filter product_violation rows of
             e # _ \<Rightarrow> Inl e
           | [] \<Rightarrow> Inr (d\<lparr>products :=
                      map (\<lambda>p. if p_id p = i then p\<lparr>p_stock := p_stock p - q\<rparr> else p)
                        (products d)\<rparr>))"

subsection \<open>Statements on orders and order items\<close>

text \<open>
  \<^verbatim>\<open>INSERT INTO orders (customer_name, customer_email, total_amount, status)
  VALUES ($1, $2, $3, 'pending') RETURNING *\<close>
\<close>

definition insert_order ::
  "string option \<Rightarrow> string option \<Rightarrow> int \<Rightarrow> database \<Rightarrow> exn \<times> database + order \<times> database" where
  "insert_order cn ce amount d =
     (let d1 = d\<lparr>orders_id_seq := Suc (orders_id_seq d)\<rparr>
      in case (cn, ce) of
           (Some n, Some e) \<Rightarrow>
             if 255 < length n \<or> 255 < length e then Inl (ValueTooLong, d1)
             else if \<not> numeric_10_2 amount then Inl (NumericOverflow, d1)
             else if amount < 0 then Inl (CheckViolation, d1)
             else
               let row = \<lparr>o_id = orders_id_seq d, o_customer_name = n, o_customer_email = e,
                          o_total_amount = amount, o_status = Pending\<rparr>
               in Inr (row, d1\<lparr>orders := orders d @ [row]\<rparr>)
         | _ \<Rightarrow> Inl (NotNullViolation, d1))"

text \<open>
  \<^verbatim>\<open>INSERT INTO order_items (order_id, product_id, quantity, price) VALUES ($1, $2, $3, $4)\<close>,
  with the two foreign keys and the CHECKs \<^verbatim>\<open>quantity > 0\<close> and \<^verbatim>\<open>price >= 0\<close>.
\<close>

definition insert_order_item ::
  "nat \<Rightarrow> nat \<Rightarrow> int \<Rightarrow> int \<Rightarrow> database \<Rightarrow> exn \<times> database + database" where
  "insert_order_item oid pid q pr d =
     (let d1 = d\<lparr>order_items_id_seq := Suc (order_items_id_seq d)\<rparr>
      in if \<not> int4 q then Inl (IntegerOutOfRange, d)
         else if \<not> numeric_10_2 pr then Inl (NumericOverflow, d1)
         else if q \<le> 0 \<or> pr < 0 then Inl (CheckViolation, d1)
         else if oid \<notin> set (map o_id (orders d)) \<or> pid \<notin> set (map p_id (products d))
           then Inl (ForeignKeyViolation, d1)
         else Inr (d1\<lparr>order_items := order_items d @
                        [\<lparr>oi_id = order_items_id_seq d, oi_order_id = oid, oi_product_id = pid,
                          oi_quantity = q, oi_price = pr\<rparr>]\<rparr>))"

text \<open>
  \<^verbatim>\<open>UPDATE orders SET status = $1, updated_at = CURRENT_TIMESTAMP WHERE id = $2 RETURNING *\<close>,
  with \<open>$2\<close> read as the integer \<open>n\<close>.
\<close>

definition set_order_status :: "order_status \<Rightarrow> int \<Rightarrow> database \<Rightarrow> order list \<times> database" where
  "set_order_status st n d =
     (map (\<lambda>ord. ord\<lparr>o_status := st\<rparr>) (filter (\<lambda>ord. int (o_id ord) = n) (orders d)),
      d\<lparr>orders :=
          map (\<lambda>ord. if int (o_id ord) = n then ord\<lparr>o_status := st\<rparr> else ord) (orders d)\<rparr>)"

text \<open>
  \<^verbatim>\<open>ROLLBACK\<close> gives back the tables as they were at \<^verbatim>\<open>BEGIN\<close>; the values taken from the
  sequences in between stay taken. The first store is the one at \<^verbatim>\<open>BEGIN\<close>, the second
  the one the failed statement left.
\<close>

definition rollback :: "database \<Rightarrow> database \<Rightarrow> database" where
  "rollback d0 d =
     d0\<lparr>products_id_seq := products_id_seq d, orders_id_seq := orders_id_seq d,
        order_items_id_seq := order_items_id_seq d\<rparr>"

section \<open>The Redis client\<close>

text \<open>
  The keys \<^verbatim>\<open>products:all\<close> and \<^verbatim>\<open>product:${id}\<close>, the latter with the route parameter as
  the request spells it. A value is what \<^verbatim>\<open>JSON.parse\<close> gives back of what
  \<^verbatim>\<open>JSON.stringify\<close> stored, kept with the second at which it expires. Each command is a
  promise that may be rejected; the three flags say which commands the server rejects at
  present.
\<close>

datatype cache_key = ProductsAll | ProductKey string

datatype cache_value = ProductList "product list" | ProductRow product

record redis =
  entries :: "cache_key \<rightharpoonup> cache_value \<times> nat"
  get_fails :: bool
  setEx_fails :: bool
  del_fails :: bool

definition redis_get :: "nat \<Rightarrow> cache_key \<Rightarrow> redis \<Rightarrow> exn + cache_value option" where
  "redis_get now k c =
     (if get_fails c then Inl RedisError
      else Inr (case entries c k of
                  None \<Rightarrow> None
                | Some (v, expiry) \<Rightarrow> if now < expiry then Some v else None))"

definition redis_setEx :: "nat \<Rightarrow> cache_key \<Rightarrow> nat \<Rightarrow> cache_value \<Rightarrow> redis \<Rightarrow> exn + redis" where
  "redis_setEx now k ttl v c =
     (if setEx_fails c then Inl RedisError
      else Inr (c\<lparr>entries := (entries c)(k \<mapsto> (v, now + ttl))\<rparr>))"

definition redis_del :: "cache_key \<Rightarrow> redis \<Rightarrow> exn + redis" where
  "redis_del k c =
     (if del_fails c then Inl RedisError
      else Inr (c\<lparr>entries := (entries c)(k := None)\<rparr>))"

section \<open>The handlers (backend/app.js)\<close>

text \<open>
  A handler takes the request, the second at which it runs where it reads or writes an
  expiring key, and the state of store and cache; it returns the response and the state
  it leaves. A route parameter is the string of the request. A request body is the record
  of its fields, a missing one \<open>None\<close>; JavaScript calls \<open>undefined\<close>, \<open>null\<close>, the empty
  string and \<open>0\<close> falsy.
\<close>

record state =
  db :: database
  cache :: redis

datatype source = FromCache | FromDatabase

definition falsy_string :: "string option \<Rightarrow> bool" where
  "falsy_string x = (case x of None \<Rightarrow> True | Some v \<Rightarrow> v = [])"

definition falsy_number :: "int option \<Rightarrow> bool" where
  "falsy_number x = (case x of None \<Rightarrow> True | Some v \<Rightarrow> v = 0)"

text \<open>
  \<^verbatim>\<open>SELECT ... FROM products WHERE is_active = true ORDER BY created_at DESC\<close>: the
  active rows, the last inserted first. (SQL leaves open the order of rows inserted at
  the same instant.)
\<close>

definition select_active_products :: "database \<Rightarrow> product list" where
  "select_active_products d = rev (filter p_is_active (products d))"

text \<open>\<^verbatim>\<open>SELECT * FROM products WHERE id = $1 AND is_active = true\<close>\<close>

definition select_active_product :: "string \<Rightarrow> database \<Rightarrow> exn + product list" where
  "select_active_product r d =
     (case int4in r of
        Inl e \<Rightarrow> Inl e
      | Inr n \<Rightarrow> Inr (filter (\<lambda>p. int (p_id p) = n \<and> p_is_active p) (products d)))"

text \<open>\<^verbatim>\<open>app.get('/api/products', ...)\<close>\<close>

definition list_products :: "nat \<Rightarrow> state \<Rightarrow> (error + source \<times> cache_value) \<times> state" where
  "list_products now s =
     (case redis_get now ProductsAll (cache s) of
        Inl e \<Rightarrow> (Inl (Internal e), s)
      | Inr (Some cachedData) \<Rightarrow> (Inr (FromCache, cachedData), s)
      | Inr None \<Rightarrow>
          (let rows = select_active_products (db s)
           in case redis_setEx now ProductsAll 300 (ProductList rows) (cache s) of
                Inl e \<Rightarrow> (Inl (Internal e), s)
              | Inr c \<Rightarrow> (Inr (FromDatabase, ProductList rows), s\<lparr>cache := c\<rparr>)))"

text \<open>\<^verbatim>\<open>app.get('/api/products/:id', ...)\<close>\<close>

definition get_product :: "nat \<Rightarrow> string \<Rightarrow> state \<Rightarrow> (error + source \<times> cache_value) \<times> state" where
  "get_product now r s =
     (case redis_get now (ProductKey r) (cache s) of
        Inl e \<Rightarrow> (Inl (Internal e), s)
      | Inr (Some cachedData) \<Rightarrow> (Inr (FromCache, cachedData), s)
      | Inr None \<Rightarrow>
          (case select_active_product r (db s) of
             Inl e \<Rightarrow> (Inl (Internal e), s)
           | Inr [] \<Rightarrow> (Inl NotFound, s)
           | Inr (row # _) \<Rightarrow>
               (case redis_setEx now (ProductKey r) 600 (ProductRow row) (cache s) of
                  Inl e \<Rightarrow> (Inl (Internal e), s)
                | Inr c \<Rightarrow> (Inr (FromDatabase, ProductRow row), s\<lparr>cache := c\<rparr>))))"

text \<open>\<^verbatim>\<open>app.post('/api/products', ...)\<close>\<close>

definition create_product :: "product_fields \<Rightarrow> state \<Rightarrow> (error + product) \<times> state" where
  "create_product f s =
     (if falsy_string (f_name f) \<or> falsy_number (f_price f) \<or> falsy_string (f_category f)
      then (Inl MissingFields, s)
      else
        case insert_product (f_name f) (f_description f) (f_price f) (f_category f)
               (coalesce (f_stock f) 0) (f_image_url f) (db s) of
          Inl (e, d) \<Rightarrow> (Inl (Internal e), s\<lparr>db := d\<rparr>)
        | Inr (row, d) \<Rightarrow>
            (case redis_del ProductsAll (cache s) of
               Inl e \<Rightarrow> (Inl (Internal e), s\<lparr>db := d\<rparr>)
             | Inr c \<Rightarrow> (Inr row, \<lparr>db = d, cache = c\<rparr>)))"

text \<open>
  \<^verbatim>\<open>app.put('/api/products/:id', ...)\<close>: the statement addresses the row by the integer
  the route parameter denotes, \<^verbatim>\<open>redisClient.del\<close> the key by the route parameter as
  spelled.
\<close>

definition update_product :: "string \<Rightarrow> product_fields \<Rightarrow> state \<Rightarrow> (error + product) \<times> state" where
  "update_product r f s =
     (case int4in r of
        Inl e \<Rightarrow> (Inl (Internal e), s)
      | Inr n \<Rightarrow>
          (case update_products f n (db s) of
             Inl e \<Rightarrow> (Inl (Internal e), s)
           | Inr ([], d) \<Rightarrow> (Inl NotFound, s)
           | Inr (row # _, d) \<Rightarrow>
               (case redis_del ProductsAll (cache s) of
                  Inl e \<Rightarrow> (Inl (Internal e), s\<lparr>db := d\<rparr>)
                | Inr c1 \<Rightarrow>
                    (case redis_del (ProductKey r) c1 of
                       Inl e \<Rightarrow> (Inl (Internal e), \<lparr>db = d, cache = c1\<rparr>)
                     | Inr c2 \<Rightarrow> (Inr row, \<lparr>db = d, cache = c2\<rparr>)))))"

text \<open>\<^verbatim>\<open>app.delete('/api/products/:id', ...)\<close>, row and key addressed as in the update.\<close>

definition delete_product :: "string \<Rightarrow> state \<Rightarrow> (error + unit) \<times> state" where
  "delete_product r s =
     (case int4in r of
        Inl e \<Rightarrow> (Inl (Internal e), s)
      | Inr n \<Rightarrow>
          (case deactivate_products n (db s) of
             ([], d) \<Rightarrow> (Inl NotFound, s)
           | (_ # _, d) \<Rightarrow>
               (case redis_del ProductsAll (cache s) of
                  Inl e \<Rightarrow> (Inl (Internal e), s\<lparr>db := d\<rparr>)
                | Inr c1 \<Rightarrow>
                    (case redis_del (ProductKey r) c1 of
                       Inl e \<Rightarrow> (Inl (Internal e), \<lparr>db = d, cache = c1\<rparr>)
                     | Inr c2 \<Rightarrow> (Inr (), \<lparr>db = d, cache = c2\<rparr>)))))"

subsection \<open>Orders\<close>

record item =
  product_id :: nat
  quantity :: int

record order_request =
  customer_name :: "string option"
  customer_email :: "string option"
  items :: "item list"

text \<open>
  The first loop of \<^verbatim>\<open>app.post('/api/orders', ...)\<close>: it reads price and stock of each
  item's product and adds \<^verbatim>\<open>product.price * item.quantity\<close> to \<^verbatim>\<open>total_amount\<close>. The
  JavaScript adds double-precision numbers and the column rounds the sum to two decimals;
  the model adds cents.
\<close>

fun calculate_total :: "database \<Rightarrow> item list \<Rightarrow> int \<Rightarrow> exn + int" where
  "calculate_total d [] total_amount = Inr total_amount"
| "calculate_total d (it # its) total_amount =
     (case filter (\<lambda>p. p_id p = product_id it \<and> p_is_active p) (products d) of
        [] \<Rightarrow> Inl (ProductNotFound (product_id it))
      | product # _ \<Rightarrow>
          if p_stock product < quantity it then Inl (InsufficientStock (product_id it))
          else calculate_total d its (total_amount + p_price product * quantity it))"

text \<open>
  The second loop: for each item it reads the price again, inserts the order item and
  decrements the stock. An error comes with the store the failed statement left.
\<close>

fun create_items :: "nat \<Rightarrow> item list \<Rightarrow> database \<Rightarrow> exn \<times> database + database" where
  "create_items oid [] d = Inr d"
| "create_items oid (it # its) d =
     (case filter (\<lambda>p. p_id p = product_id it) (products d) of
        [] \<Rightarrow> Inl (TypeError, d)
      | product # _ \<Rightarrow>
          (case insert_order_item oid (product_id it) (quantity it) (p_price product) d of
             Inl failed \<Rightarrow> Inl failed
           | Inr d1 \<Rightarrow>
               (case decrement_stock (quantity it) (product_id it) d1 of
                  Inl e \<Rightarrow> Inl (e, d1)
                | Inr d2 \<Rightarrow> create_items oid its d2)))"

text \<open>
  What runs between \<^verbatim>\<open>BEGIN\<close> and \<^verbatim>\<open>COMMIT\<close>: the order and the store to be committed,
  or the error that makes the handler roll back and the store the failed statement left.
\<close>

definition order_transaction ::
  "order_request \<Rightarrow> database \<Rightarrow> exn \<times> database + order \<times> database" where
  "order_transaction req d =
     (case calculate_total d (items req) 0 of
        Inl e \<Rightarrow> Inl (e, d)
      | Inr total_amount \<Rightarrow>
          (case insert_order (customer_name req) (customer_email req) total_amount d of
             Inl failed \<Rightarrow> Inl failed
           | Inr (ord, d1) \<Rightarrow>
               (case create_items (o_id ord) (items req) d1 of
                  Inl failed \<Rightarrow> Inl failed
                | Inr d2 \<Rightarrow> Inr (ord, d2))))"

text \<open>
  \<^verbatim>\<open>app.post('/api/orders', ...)\<close>. An error inside the transaction is answered after
  \<^verbatim>\<open>ROLLBACK\<close>. \<^verbatim>\<open>redisClient.del\<close> runs after \<^verbatim>\<open>COMMIT\<close> inside the same \<^verbatim>\<open>try\<close>: when
  it is rejected, the \<^verbatim>\<open>ROLLBACK\<close> of the \<^verbatim>\<open>catch\<close> block finds no open transaction, and
  the response is the error.
\<close>

definition create_order :: "order_request \<Rightarrow> state \<Rightarrow> (error + order) \<times> state" where
  "create_order req s =
     (if falsy_string (customer_name req) \<or> falsy_string (customer_email req) \<or> items req = []
      then (Inl MissingFields, s)
      else
        case order_transaction req (db s) of
          Inl (e, d) \<Rightarrow> (Inl (Internal e), s\<lparr>db := rollback (db s) d\<rparr>)
        | Inr (ord, d) \<Rightarrow>
            (case redis_del ProductsAll (cache s) of
               Inl e \<Rightarrow> (Inl (Internal e), s\<lparr>db := d\<rparr>)
             | Inr c \<Rightarrow> (Inr ord, \<lparr>db = d, cache = c\<rparr>)))"

text \<open>\<^verbatim>\<open>app.patch('/api/orders/:id/status', ...)\<close>, with \<^verbatim>\<open>validStatuses.includes(status)\<close>.\<close>

definition valid_status :: "string \<Rightarrow> order_status option" where
  "valid_status x =
     (if x = ''pending'' then Some Pending
      else if x = ''processing'' then Some Processing
      else if x = ''shipped'' then Some Shipped
      else if x = ''delivered'' then Some Delivered
      else if x = ''cancelled'' then Some Cancelled
      else None)"

definition update_order_status :: "string \<Rightarrow> string \<Rightarrow> state \<Rightarrow> (error + order) \<times> state" where
  "update_order_status r status s =
     (case valid_status status of
        None \<Rightarrow> (Inl InvalidStatus, s)
      | Some st \<Rightarrow>
          (case int4in r of
             Inl e \<Rightarrow> (Inl (Internal e), s)
           | Inr n \<Rightarrow>
               (case set_order_status st n (db s) of
                  ([], d) \<Rightarrow> (Inl NotFound, s)
                | (row # _, d) \<Rightarrow> (Inr row, s\<lparr>db := d\<rparr>))))"

subsection \<open>Statistics\<close>

record stats =
  total_orders :: nat
  total_products :: nat
  total_revenue :: int
  pending_orders :: nat

text \<open>
  \<^verbatim>\<open>app.get('/api/stats', ...)\<close>: the aggregates are taken over the rows of
  \<^verbatim>\<open>orders o CROSS JOIN products p WHERE p.is_active = true\<close>. \<^verbatim>\<open>COUNT(DISTINCT e)\<close> counts
  the distinct values of \<open>e\<close> that are not NULL, and \<^verbatim>\<open>SUM\<close> adds over every row of the join.
\<close>

definition cross_join :: "database \<Rightarrow> (order \<times> product) list" where
  "cross_join d = filter (\<lambda>(ord, p). p_is_active p) (List.product (orders d) (products d))"

definition get_stats :: "database \<Rightarrow> stats" where
  "get_stats d =
     (let rows = cross_join d
      in \<lparr>total_orders = length (remdups (map (\<lambda>(ord, p). o_id ord) rows)),
          total_products = length (remdups (map (\<lambda>(ord, p). p_id p) rows)),
          total_revenue = sum_list (map (\<lambda>(ord, p). o_total_amount ord) rows),
          pending_orders =
            length (remdups (map (\<lambda>(ord, p). o_id ord)
                      (filter (\<lambda>(ord, p). o_status ord = Pending) rows)))\<rparr>)"

section \<open>The seeded store (backend/init.sql)\<close>

definition seed_product ::
  "nat \<Rightarrow> string \<Rightarrow> string \<Rightarrow> int \<Rightarrow> string \<Rightarrow> int \<Rightarrow> string \<Rightarrow> product" where
  "seed_product i n descr pr cat st img =
     \<lparr>p_id = i, p_name = n, p_description = Some descr, p_price = pr, p_category = cat,
      p_stock = st, p_image_url = Some img, p_is_active = True\<rparr>"

definition seed_products :: "product list" where
  \<open>seed_products =
    [seed_product 1 ''Laptop Pro 15"'' ''High-performance laptop with 16GB RAM and 512GB SSD''
       129999 ''Electronics'' 50 ''https://images.unsplash.com/photo-1496181133206-80ce9b88a853'',
     seed_product 2 ''Wireless Mouse'' ''Ergonomic wireless mouse with precision tracking''
       2999 ''Electronics'' 200 ''https://images.unsplash.com/photo-1527864550417-7fd91fc51a46'',
     seed_product 3 ''Mechanical Keyboard'' ''RGB backlit mechanical keyboard with blue switches''
       8999 ''Electronics'' 100 ''https://images.unsplash.com/photo-1595225476474-87563907a212'',
     seed_product 4 ''USB-C Hub'' ''7-in-1 USB-C hub with HDMI, USB 3.0, and SD card reader''
       4999 ''Accessories'' 150 ''https://images.unsplash.com/photo-1625948515291-69613efd103f'',
     seed_product 5 ''Laptop Stand'' ''Adjustable aluminum laptop stand for better ergonomics''
       3999 ''Accessories'' 75 ''https://images.unsplash.com/photo-1527864550417-7fd91fc51a46'',
     seed_product 6 ''Webcam HD'' ''1080p HD webcam with built-in microphone''
       7999 ''Electronics'' 80 ''https://images.unsplash.com/photo-1587826080692-f439cd0b70da'',
     seed_product 7 ''Headphones Noise-Cancelling'' ''Premium noise-cancelling over-ear headphones''
       24999 ''Electronics'' 60 ''https://images.unsplash.com/photo-1505740420928-5e560c06d30e'',
     seed_product 8 ''External SSD 1TB'' ''Portable external SSD with USB 3.1 Gen 2''
       12999 ''Storage'' 120 ''https://images.unsplash.com/photo-1531492746076-161ca9bcad58'',
     seed_product 9 ''Monitor 27" 4K'' ''27-inch 4K UHD monitor with HDR support''
       44999 ''Electronics'' 40 ''https://images.unsplash.com/photo-1527443224154-c4a3942d3acf'',
     seed_product 10 ''Desk Lamp LED'' ''Adjustable LED desk lamp with touch control''
       3499 ''Accessories'' 90 ''https://images.unsplash.com/photo-1513506003901-1e6a229e2d15'',
     seed_product 11 ''Smartphone Pro'' ''Latest flagship smartphone with 5G''
       99999 ''Electronics'' 35 ''https://images.unsplash.com/photo-1511707171634-5f897ff02aa9'',
     seed_product 12 ''Tablet 10"'' ''10-inch tablet with stylus support''
       39999 ''Electronics'' 45 ''https://images.unsplash.com/photo-1561154464-82e9adf32764'',
     seed_product 13 ''Smartwatch'' ''Fitness tracking smartwatch with heart rate monitor''
       19999 ''Wearables'' 70 ''https://images.unsplash.com/photo-1523275335684-37898b6baf30'',
     seed_product 14 ''Wireless Earbuds'' ''True wireless earbuds with active noise cancellation''
       14999 ''Electronics'' 110 ''https://images.unsplash.com/photo-1590658268037-6bf12165a8df'',
     seed_product 15 ''Portable Charger'' ''20,000mAh portable battery pack with fast charging''
       4499 ''Accessories'' 180 ''https://images.unsplash.com/photo-1609091839311-d5365f9ff1c5'']\<close>

definition seed_orders :: "order list" where
  "seed_orders =
    [\<lparr>o_id = 1, o_customer_name = ''John Doe'', o_customer_email = ''john.doe@example.com'',
      o_total_amount = 132998, o_status = Delivered\<rparr>,
     \<lparr>o_id = 2, o_customer_name = ''Jane Smith'', o_customer_email = ''jane.smith@example.com'',
      o_total_amount = 52997, o_status = Shipped\<rparr>,
     \<lparr>o_id = 3, o_customer_name = ''Bob Johnson'', o_customer_email = ''bob.johnson@example.com'',
      o_total_amount = 8999, o_status = Processing\<rparr>,
     \<lparr>o_id = 4, o_customer_name = ''Alice Williams'',
      o_customer_email = ''alice.williams@example.com'',
      o_total_amount = 44999, o_status = Pending\<rparr>]"

definition seed_item :: "nat \<Rightarrow> nat \<Rightarrow> nat \<Rightarrow> int \<Rightarrow> int \<Rightarrow> order_item" where
  "seed_item i oid pid q pr =
     \<lparr>oi_id = i, oi_order_id = oid, oi_product_id = pid, oi_quantity = q, oi_price = pr\<rparr>"

definition seed_order_items :: "order_item list" where
  "seed_order_items =
    [seed_item 1 1 1 1 129999, seed_item 2 1 2 1 2999, seed_item 3 2 7 1 24999,
     seed_item 4 2 4 1 4999, seed_item 5 2 5 1 3999, seed_item 6 2 8 1 12999,
     seed_item 7 2 10 1 3499, seed_item 8 3 3 1 8999, seed_item 9 4 9 1 44999]"

definition seed_db :: database where
  "seed_db =
     \<lparr>products = seed_products, orders = seed_orders, order_items = seed_order_items,
      products_id_seq = 16, orders_id_seq = 5, order_items_id_seq = 10\<rparr>"

text \<open>A Redis server that holds no key and answers every command.\<close>

definition empty_redis :: redis where
  "empty_redis =
     \<lparr>entries = Map.empty, get_fails = False, setEx_fails = False, del_fails = False\<rparr>"

text \<open>
  The scenario of the specification: one product with stock 5 and price 10.00, no orders.
\<close>

definition product_A :: product where
  "product_A =
     \<lparr>p_id = 1, p_name = ''A'', p_description = None, p_price = 1000, p_category = ''Demo'',
      p_stock = 5, p_image_url = None, p_is_active = True\<rparr>"

definition scenario_db :: database where
  "scenario_db =
     \<lparr>products = [product_A], orders = [], order_items = [],
      products_id_seq = 2, orders_id_seq = 1, order_items_id_seq = 1\<rparr>"

definition order_of_A :: "int list \<Rightarrow> order_request" where
  "order_of_A qs =
     \<lparr>customer_name = Some ''Ann'', customer_email = Some ''ann@example.com'',
      items = map (\<lambda>q. \<lparr>product_id = 1, quantity = q\<rparr>) qs\<rparr>"

section \<open>Notions the properties are stated with\<close>

text \<open>The quantity a list of items orders of product \<open>i\<close>, over all items that name it.\<close>

definition ordered_quantity :: "item list \<Rightarrow> nat \<Rightarrow> int" where
  "ordered_quantity its i = sum_list (map quantity (filter (\<lambda>it. product_id it = i) its))"

text \<open>The price of the products row with id \<open>i\<close>.\<close>

definition price_of :: "database \<Rightarrow> nat \<Rightarrow> int" where
  "price_of d i = (case filter (\<lambda>p. p_id p = i) (products d) of [] \<Rightarrow> 0 | p # _ \<Rightarrow> p_price p)"

text \<open>The products table after the stock of every row went down by what the items order.\<close>

definition decremented :: "item list \<Rightarrow> product list \<Rightarrow> product list" where
  "decremented its ps = map (\<lambda>p. p\<lparr>p_stock := p_stock p - ordered_quantity its (p_id p)\<rparr>) ps"

definition stock_ok :: "database \<Rightarrow> bool" where
  "stock_ok d \<longleftrightarrow> list_all (\<lambda>p. 0 \<le> p_stock p) (products d)"

text \<open>
  What the schema guarantees of a store: every products row satisfies its column
  constraints, every order item refers to an order, and the sequence of order ids is ahead
  of the ids in use.
\<close>

definition schema_ok :: "database \<Rightarrow> bool" where
  "schema_ok d \<longleftrightarrow>
     list_all (\<lambda>p. product_violation p = None) (products d) \<and>
     list_all (\<lambda>oi. oi_order_id oi \<in> set (map o_id (orders d))) (order_items d) \<and>
     list_all (\<lambda>ord. o_id ord < orders_id_seq d) (orders d)"

text \<open>The order items of an order, and their value.\<close>

definition items_of :: "database \<Rightarrow> nat \<Rightarrow> order_item list" where
  "items_of d oid = filter (\<lambda>oi. oi_order_id oi = oid) (order_items d)"

definition items_value :: "order_item list \<Rightarrow> int" where
  "items_value ois = sum_list (map (\<lambda>oi. oi_price oi * oi_quantity oi) ois)"

section \<open>Sequences of requests\<close>

datatype request =
    ListProducts nat
  | GetProduct nat string
  | CreateProduct product_fields
  | UpdateProduct string product_fields
  | DeleteProduct string
  | CreateOrder order_request
  | UpdateOrderStatus string string
  | GetStats

text \<open>The state a request leaves, and the state a sequence of requests leaves.\<close>

fun handle :: "request \<Rightarrow> state \<Rightarrow> state" where
  "handle (ListProducts now) s = snd (list_products now s)"
| "handle (GetProduct now r) s = snd (get_product now r s)"
| "handle (CreateProduct f) s = snd (create_product f s)"
| "handle (UpdateProduct r f) s = snd (update_product r f s)"
| "handle (DeleteProduct r) s = snd (delete_product r s)"
| "handle (CreateOrder req) s = snd (create_order req s)"
| "handle (UpdateOrderStatus r status) s = snd (update_order_status r status s)"
| "handle GetStats s = s"

fun run :: "request list \<Rightarrow> state \<Rightarrow> state" where
  "run [] s = s"
| "run (r # rs) s = run rs (handle r s)"

text \<open>What the store itself answers at present to a read of the product at route \<open>r\<close>.\<close>

definition store_answer :: "database \<Rightarrow> string \<Rightarrow> error + cache_value" where
  "store_answer d r =
     (case select_active_product r d of
        Inl e \<Rightarrow> Inl (Internal e)
      | Inr [] \<Rightarrow> Inl NotFound
      | Inr (row # _) \<Rightarrow> Inr (ProductRow row))"

section \<open>States of the scenario\<close>

definition scenario :: state where
  "scenario = \<lparr>db = scenario_db, cache = empty_redis\<rparr>"

text \<open>The same store in front of a Redis server that rejects \<^verbatim>\<open>DEL\<close>.\<close>

definition scenario_del_rejected :: state where
  "scenario_del_rejected = \<lparr>db = scenario_db, cache = empty_redis\<lparr>del_fails := True\<rparr>\<rparr>"

text \<open>The same store in front of a Redis server that rejects \<^verbatim>\<open>GET\<close>.\<close>

definition scenario_get_rejected :: state where
  "scenario_get_rejected = \<lparr>db = scenario_db, cache = empty_redis\<lparr>get_fails := True\<rparr>\<rparr>"

text \<open>The same store in front of a Redis server that rejects \<^verbatim>\<open>SETEX\<close>.\<close>

definition scenario_put_rejected :: state where
  "scenario_put_rejected = \<lparr>db = scenario_db, cache = empty_redis\<lparr>setEx_fails := True\<rparr>\<rparr>"

definition free_sample :: product_fields where
  "free_sample =
     \<lparr>f_name = Some ''Free sample'', f_description = None, f_price = Some 0,
      f_category = Some ''Promo'', f_stock = None, f_image_url = None\<rparr>"

text \<open>The scenario after \<^verbatim>\<open>GET /api/products/1\<close> at second 100.\<close>

definition scenario_read :: state where
  "scenario_read = snd (get_product 100 ''1'' scenario)"

text \<open>A change of price to 12.00.\<close>

definition new_price :: product_fields where
  "new_price =
     \<lparr>f_name = None, f_description = None, f_price = Some 1200, f_category = None,
      f_stock = None, f_image_url = None\<rparr>"



section \<open>Notions of the order properties\<close>

text \<open>The value of a list of items at the prices of the store.\<close>

definition order_value :: "database \<Rightarrow> item list \<Rightarrow> int" where
  "order_value d its = sum_list (map (\<lambda>it. price_of d (product_id it) * quantity it) its)"

text \<open>A customer field that is present, not empty and fits its column.\<close>

definition filled :: "string option \<Rightarrow> bool" where
  "filled x = (case x of None \<Rightarrow> False | Some v \<Rightarrow> v \<noteq> [] \<and> length v \<le> 255)"

text \<open>
  The valid order request as the specification words it: customer fields not empty, items
  not empty, every item referencing an active product with stock at least its quantity.
\<close>

definition stated_valid :: "database \<Rightarrow> order_request \<Rightarrow> bool" where
  "stated_valid d req \<longleftrightarrow>
     \<not> falsy_string (customer_name req) \<and> \<not> falsy_string (customer_email req) \<and>
     items req \<noteq> [] \<and>
     list_all (\<lambda>it. list_ex (\<lambda>p. p_id p = product_id it \<and> p_is_active p \<and>
                                 quantity it \<le> p_stock p) (products d)) (items req)"

text \<open>
  The order request the schema accepts: customer fields that fit, items of positive
  quantity that each name a products row, every row they name active and holding at least
  what all items together order of it, and a value below 100000000.00.
\<close>

definition fits_order :: "database \<Rightarrow> order_request \<Rightarrow> bool" where
  "fits_order d req \<longleftrightarrow>
     filled (customer_name req) \<and> filled (customer_email req) \<and> items req \<noteq> [] \<and>
     list_all (\<lambda>it. 0 < quantity it \<and> list_ex (\<lambda>p. p_id p = product_id it) (products d))
       (items req) \<and>
     list_all (\<lambda>p. p_id p \<in> set (map product_id (items req)) \<longrightarrow>
                   p_is_active p \<and> ordered_quantity (items req) (p_id p) \<le> p_stock p)
       (products d) \<and>
     order_value d (items req) < 10000000000"

text \<open>The columns of an order item other than its id.\<close>

definition item_columns :: "order_item \<Rightarrow> nat \<times> nat \<times> int \<times> int" where
  "item_columns oi = (oi_order_id oi, oi_product_id oi, oi_quantity oi, oi_price oi)"

section \<open>Lemmas on the statements and the order transaction\<close>

lemmas redis_defs = redis_get_def redis_setEx_def redis_del_def

lemma map_filter_Nil_iff: "List.map_filter f xs = [] \<longleftrightarrow> (\<forall>x\<in>set xs. f x = None)"
  by (induction xs) (auto simp: map_filter_simps split: option.splits)

lemma violation_None_stock: "product_violation p = None \<Longrightarrow> 0 \<le> p_stock p"
  by (auto simp: product_violation_def split: if_splits)

lemma ordered_quantity_Cons:
  "ordered_quantity (it # its) i =
     (if product_id it = i then quantity it else 0) + ordered_quantity its i"
  by (simp add: ordered_quantity_def)

lemma ordered_quantity_Nil: "ordered_quantity [] i = 0"
  by (simp add: ordered_quantity_def)

lemma decrement_stock_Inr:
  assumes "decrement_stock q i d = Inr d'"
  shows "products d' = map (\<lambda>p. if p_id p = i then p\<lparr>p_stock := p_stock p - q\<rparr> else p) (products d)"
    and "orders d' = orders d" and "order_items d' = order_items d"
    and "orders_id_seq d' = orders_id_seq d"
    and "\<forall>p\<in>set (products d). p_id p = i \<longrightarrow> 0 \<le> p_stock p - q"
    and "int4 q"
  using assms
  by (auto simp: decrement_stock_def Let_def map_filter_Nil_iff split: if_splits list.splits
      dest!: violation_None_stock)

lemma insert_order_item_Inr:
  assumes "insert_order_item oid pid q pr d = Inr d'"
  shows "products d' = products d" and "orders d' = orders d"
    and "order_items d' = order_items d @
          [\<lparr>oi_id = order_items_id_seq d, oi_order_id = oid, oi_product_id = pid,
            oi_quantity = q, oi_price = pr\<rparr>]"
    and "orders_id_seq d' = orders_id_seq d"
  using assms by (auto simp: insert_order_item_def Let_def split: if_splits)

lemma decremented_Nil: "decremented [] ps = ps"
  by (simp add: decremented_def ordered_quantity_Nil)

lemma decremented_Cons:
  "decremented its (map (\<lambda>p. if p_id p = product_id it then p\<lparr>p_stock := p_stock p - quantity it\<rparr> else p) ps)
   = decremented (it # its) ps"
  by (simp add: decremented_def ordered_quantity_Cons cong: map_cong)

lemma create_items_Cons_Inr:
  assumes "create_items oid (it # its) d = Inr d'"
  obtains pr d1 d2 where
    "insert_order_item oid (product_id it) (quantity it) pr d = Inr d1"
    "decrement_stock (quantity it) (product_id it) d1 = Inr d2"
    "create_items oid its d2 = Inr d'"
  using assms by (auto split: list.splits sum.splits)

lemma create_items_Inr:
  "create_items oid its d = Inr d' \<Longrightarrow>
     products d' = decremented its (products d) \<and> orders d' = orders d \<and>
     orders_id_seq d' = orders_id_seq d"
proof (induction its arbitrary: d)
  case Nil
  then show ?case by (simp add: decremented_Nil)
next
  case (Cons it its)
  from Cons.prems obtain pr d1 d2 where
    d1: "insert_order_item oid (product_id it) (quantity it) pr d = Inr d1"
    and d2: "decrement_stock (quantity it) (product_id it) d1 = Inr d2"
    and rest: "create_items oid its d2 = Inr d'"
    by (rule create_items_Cons_Inr)
  from Cons.IH [OF rest] insert_order_item_Inr [OF d1] decrement_stock_Inr [OF d2]
  show ?case by (simp add: decremented_Cons)
qed

lemma stock_ok_decrement:
  assumes "decrement_stock q i d = Inr d'" and "stock_ok d"
  shows "stock_ok d'"
  using decrement_stock_Inr(1,5) [OF assms(1)] assms(2)
  by (auto simp: stock_ok_def list_all_iff)

lemma stock_ok_insert_item:
  "insert_order_item oid pid q pr d = Inr d' \<Longrightarrow> stock_ok d \<Longrightarrow> stock_ok d'"
  by (simp add: stock_ok_def insert_order_item_Inr)

lemma stock_ok_create_items:
  "create_items oid its d = Inr d' \<Longrightarrow> stock_ok d \<Longrightarrow> stock_ok d'"
proof (induction its arbitrary: d)
  case Nil
  then show ?case by simp
next
  case (Cons it its)
  from Cons.prems(1) obtain pr d1 d2 where
    d1: "insert_order_item oid (product_id it) (quantity it) pr d = Inr d1"
    and d2: "decrement_stock (quantity it) (product_id it) d1 = Inr d2"
    and rest: "create_items oid its d2 = Inr d'"
    by (rule create_items_Cons_Inr)
  show ?case
    using Cons.IH [OF rest] stock_ok_decrement [OF d2] stock_ok_insert_item [OF d1] Cons.prems(2)
    by blast
qed

lemma insert_order_Inr:
  assumes "insert_order cn ce amount d = Inr (ord, d')"
  shows "products d' = products d" and "orders d' = orders d @ [ord]"
    and "order_items d' = order_items d" and "o_id ord = orders_id_seq d"
    and "o_total_amount ord = amount" and "orders_id_seq d' = Suc (orders_id_seq d)"
  using assms by (auto simp: insert_order_def Let_def split: option.splits if_splits)

lemma order_transaction_Inr:
  assumes "order_transaction req d = Inr (ord, d')"
  shows "products d' = decremented (items req) (products d)"
    and "stock_ok d \<Longrightarrow> stock_ok d'"
    and "orders d' = orders d @ [ord]"
proof -
  from assms obtain amount d1 where
    a: "insert_order (customer_name req) (customer_email req) amount d = Inr (ord, d1)"
    and b: "create_items (o_id ord) (items req) d1 = Inr d'"
    by (auto simp: order_transaction_def split: sum.splits)
  from create_items_Inr [OF b] insert_order_Inr [OF a]
  show "products d' = decremented (items req) (products d)" and "orders d' = orders d @ [ord]"
    by simp_all
  assume "stock_ok d"
  then have "stock_ok d1" using insert_order_Inr(1) [OF a] by (simp add: stock_ok_def)
  then show "stock_ok d'" by (rule stock_ok_create_items [OF b])
qed

text \<open>A rollback keeps the rows of the three tables.\<close>

lemma rollback_tables:
  "products (rollback d0 d) = products d0" "orders (rollback d0 d) = orders d0"
  "order_items (rollback d0 d) = order_items d0"
  by (simp_all add: rollback_def)

lemma db_list_products: "db (snd (list_products now s)) = db s"
  by (auto simp: list_products_def Let_def split: sum.splits option.splits)

lemma db_get_product: "db (snd (get_product now r s)) = db s"
  by (auto simp: get_product_def split: sum.splits option.splits list.splits)

lemma stock_ok_create_product:
  assumes "stock_ok (db s)"
  shows "stock_ok (db (snd (create_product f s)))"
proof -
  have ok: "stock_ok d'" if "insert_product nm de pr ca st im (db s) = Inr (row, d')"
    for nm de pr ca st im row d'
    using that assms
    by (auto simp: insert_product_def Let_def stock_ok_def
        split: option.splits if_splits dest: violation_None_stock)
  have failed: "stock_ok d'" if "insert_product nm de pr ca st im (db s) = Inl (e, d')"
    for nm de pr ca st im e d'
    using that assms
    by (auto simp: insert_product_def Let_def stock_ok_def split: option.splits if_splits)
  show ?thesis
    using assms ok failed by (auto simp: create_product_def split: sum.splits prod.splits)
qed

lemma update_products_Inr:
  assumes "update_products f n d = Inr (rows, d')"
  shows "products d' =
      map (\<lambda>p. if int (p_id p) = n \<and> p_is_active p then set_columns f p else p) (products d)"
    and "rows = map (set_columns f) (filter (\<lambda>p. int (p_id p) = n \<and> p_is_active p) (products d))"
    and "\<forall>p\<in>set (products d). int (p_id p) = n \<and> p_is_active p \<longrightarrow>
          product_violation (set_columns f p) = None"
  using assms
  by (auto simp: update_products_def Let_def map_filter_Nil_iff split: list.splits)

lemma stock_ok_update_product:
  assumes "stock_ok (db s)"
  shows "stock_ok (db (snd (update_product r f s)))"
proof -
  have "stock_ok d'" if "update_products f n (db s) = Inr (rows, d')" for n rows d'
    using update_products_Inr(1,3) [OF that] assms
    by (auto simp: stock_ok_def list_all_iff intro: violation_None_stock)
  then show ?thesis
    using assms by (auto simp: update_product_def split: sum.splits list.splits)
qed

lemma stock_ok_delete_product:
  assumes "stock_ok (db s)"
  shows "stock_ok (db (snd (delete_product r s)))"
  using assms
  by (auto simp: delete_product_def deactivate_products_def stock_ok_def list_all_iff
      split: sum.splits list.splits)

lemma stock_ok_update_order_status:
  assumes "stock_ok (db s)"
  shows "stock_ok (db (snd (update_order_status r st s)))"
  using assms
  by (auto simp: update_order_status_def set_order_status_def stock_ok_def
      split: option.splits list.splits sum.splits)

lemma stock_ok_create_order:
  assumes "stock_ok (db s)"
  shows "stock_ok (db (snd (create_order req s)))"
proof (cases "order_transaction req (db s)")
  case (Inl failed)
  then show ?thesis
    using assms
    by (cases failed) (auto simp: create_order_def stock_ok_def rollback_tables)
next
  case (Inr r)
  then obtain ord d where t: "order_transaction req (db s) = Inr (ord, d)" by (cases r) auto
  from order_transaction_Inr(2) [OF t assms] t assms show ?thesis
    by (auto simp: create_order_def split: sum.splits)
qed

text \<open>
  No stock is negative after any sequence of requests on a store where none is: every
  write of a stock passes \<^verbatim>\<open>CHECK (stock >= 0)\<close>.
\<close>

lemma stock_ok_handle: "stock_ok (db s) \<Longrightarrow> stock_ok (db (handle r s))"
  by (cases r)
    (simp_all add: db_list_products db_get_product stock_ok_create_product
      stock_ok_update_product stock_ok_delete_product stock_ok_create_order
      stock_ok_update_order_status)

lemma stock_ok_run: "stock_ok (db s) \<Longrightarrow> stock_ok (db (run rs s))"
  by (induction rs arbitrary: s) (simp_all add: stock_ok_handle)

text \<open>
  An order whose transaction fails leaves the rows of the three tables as they were; an
  order answered with success leaves every stock lowered by what the items order.
\<close>

lemma failed_transaction_keeps_rows:
  assumes "order_transaction req (db s) = Inl failed"
  shows "products (db (snd (create_order req s))) = products (db s)"
    and "orders (db (snd (create_order req s))) = orders (db s)"
    and "order_items (db (snd (create_order req s))) = order_items (db s)"
  using assms by (cases failed; simp add: create_order_def rollback_tables)+

lemma create_order_Inr:
  assumes "create_order req s = (Inr ord, s')"
  shows "cache s' = (cache s)\<lparr>entries := (entries (cache s))(ProductsAll := None)\<rparr>"
    and "order_transaction req (db s) = Inr (ord, db s')"
  using assms
  by (auto simp: create_order_def redis_defs split: sum.splits if_splits prod.splits)

lemmas order_eval_defs =
  create_order_def order_transaction_def insert_order_def insert_order_item_def
  decrement_stock_def product_violation_def numeric_10_2_def int4_def scenario_db_def
  product_A_def order_of_A_def falsy_string_def redis_del_def empty_redis_def scenario_def
  rollback_def Let_def

lemma scenario_twice_three:
  "fst (create_order (order_of_A [3, 3]) scenario) = Inl (Internal CheckViolation)"
  "products (db (snd (create_order (order_of_A [3, 3]) scenario))) = products (db scenario)"
  "orders (db (snd (create_order (order_of_A [3, 3]) scenario))) = orders (db scenario)"
  "order_items (db (snd (create_order (order_of_A [3, 3]) scenario))) = order_items (db scenario)"
  by (simp_all add: order_eval_defs)

lemma scenario_three_two:
  "fst (create_order (order_of_A [3, 2]) scenario)
     = Inr \<lparr>o_id = 1, o_customer_name = ''Ann'', o_customer_email = ''ann@example.com'',
            o_total_amount = 5000, o_status = Pending\<rparr>"
  "map p_stock (products (db (snd (create_order (order_of_A [3, 2]) scenario)))) = [0]"
  by (simp_all add: order_eval_defs)

section \<open>Lemmas on deleting a product\<close>







section \<open>Lemmas on the cache\<close>

lemma get_product_FromDatabase:
  assumes "get_product t0 r s0 = (Inr (FromDatabase, v), s)"
  shows "entries (cache s) (ProductKey r) = Some (v, t0 + 600)"
    and "\<not> get_fails (cache s)" and "db s = db s0"
    and "store_answer (db s0) r = Inr v"
  using assms
  by (auto simp: get_product_def store_answer_def redis_defs
      split: sum.splits option.splits list.splits if_splits)

section \<open>Lemmas on orders that succeed\<close>

lemma item_columns_row:
  "item_columns \<lparr>oi_id = n, oi_order_id = oid, oi_product_id = i, oi_quantity = q, oi_price = pr\<rparr>
     = (oid, i, q, pr)"
  by (simp add: item_columns_def)

lemma violation_None_iff:
  "product_violation p = None \<longleftrightarrow>
     length (p_name p) \<le> 255 \<and> length (p_category p) \<le> 100 \<and> numeric_10_2 (p_price p) \<and>
     int4 (p_stock p) \<and> 0 \<le> p_price p \<and> 0 \<le> p_stock p"
  by (auto simp: product_violation_def)

lemma violation_None_lower:
  assumes "product_violation p = None" and "0 \<le> q" and "q \<le> p_stock p"
  shows "product_violation (p\<lparr>p_stock := p_stock p - q\<rparr>) = None"
  using assms by (auto simp: violation_None_iff int4_def)

lemma ordered_quantity_nonneg:
  assumes "\<forall>it\<in>set its. 0 < quantity it"
  shows "0 \<le> ordered_quantity its i"
proof -
  have "0 \<le> quantity it" if "it \<in> set its" for it
    using assms that by (simp add: less_imp_le)
  then show ?thesis
    unfolding ordered_quantity_def by (intro sum_list_nonneg) auto
qed

lemma quantity_le_ordered:
  assumes "it \<in> set its" and "\<forall>it\<in>set its. 0 < quantity it"
  shows "quantity it \<le> ordered_quantity its (product_id it)"
  using assms
proof (induction its)
  case Nil
  then show ?case by simp
next
  case (Cons a its)
  have nonneg: "0 \<le> ordered_quantity its i" for i
    using Cons.prems(2) by (intro ordered_quantity_nonneg) simp
  show ?case
  proof (cases "it = a")
    case True
    with nonneg [of "product_id a"] show ?thesis by (simp add: ordered_quantity_Cons)
  next
    case False
    with Cons have "quantity it \<le> ordered_quantity its (product_id it)" by simp
    moreover have "0 < quantity a" using Cons.prems(2) by simp
    ultimately show ?thesis by (simp add: ordered_quantity_Cons)
  qed
qed

lemma price_of_first:
  "filter (\<lambda>p. p_id p = i) (products d) = p # ps \<Longrightarrow> price_of d i = p_price p"
  by (simp add: price_of_def)

lemma calculate_total_Inr:
  assumes "\<forall>it\<in>set its. \<exists>p ps.
      filter (\<lambda>p. p_id p = product_id it \<and> p_is_active p) (products d) = p # ps \<and>
      quantity it \<le> p_stock p \<and> p_price p = price_of d (product_id it)"
  shows "calculate_total d its acc = Inr (acc + order_value d its)"
  using assms
proof (induction its arbitrary: acc)
  case Nil
  then show ?case by (simp add: order_value_def)
next
  case (Cons it its)
  from Cons.prems obtain p ps where
    p: "filter (\<lambda>p. p_id p = product_id it \<and> p_is_active p) (products d) = p # ps"
      "quantity it \<le> p_stock p" "p_price p = price_of d (product_id it)"
    by auto
  have "calculate_total d its (acc + p_price p * quantity it)
      = Inr (acc + p_price p * quantity it + order_value d its)"
    by (rule Cons.IH) (use Cons.prems in simp)
  with p show ?case by (simp add: order_value_def)
qed

lemma price_of_lowered:
  assumes "products d' = map (\<lambda>p. if p_id p = i then p\<lparr>p_stock := p_stock p - q\<rparr> else p) (products d)"
  shows "price_of d' j = price_of d j"
proof -
  have "(case filter (\<lambda>p. p_id p = j) (map (\<lambda>p. if p_id p = i then p\<lparr>p_stock := p_stock p - q\<rparr> else p) ps)
          of [] \<Rightarrow> 0 | p # _ \<Rightarrow> p_price p)
      = (case filter (\<lambda>p. p_id p = j) ps of [] \<Rightarrow> 0 | p # _ \<Rightarrow> p_price p)" for ps
    by (induction ps) auto
  then show ?thesis by (simp add: price_of_def assms)
qed

lemma price_of_same: "products d' = products d \<Longrightarrow> price_of d' j = price_of d j"
  by (simp add: price_of_def)

lemma create_items_succeeds:
  assumes "oid \<in> set (map o_id (orders d))"
    and "\<forall>p\<in>set (products d). product_violation p = None"
    and "\<forall>it\<in>set its. 0 < quantity it \<and> (\<exists>p\<in>set (products d). p_id p = product_id it)"
    and "\<forall>p\<in>set (products d). ordered_quantity its (p_id p) \<le> p_stock p"
  shows "\<exists>d'. create_items oid its d = Inr d' \<and>
     map item_columns (order_items d') =
       map item_columns (order_items d) @
       map (\<lambda>it. (oid, product_id it, quantity it, price_of d (product_id it))) its"
  using assms
proof (induction its arbitrary: d)
  case Nil
  then show ?case by simp
next
  case (Cons it its)
  let ?i = "product_id it" and ?q = "quantity it"
  have q: "0 < ?q" using Cons.prems(3) by simp
  have pos: "\<forall>it\<in>set its. 0 < quantity it" using Cons.prems(3) by simp
  from Cons.prems(3) obtain p0 where p0: "p0 \<in> set (products d)" "p_id p0 = ?i" by auto
  then obtain p ps where first: "filter (\<lambda>p. p_id p = ?i) (products d) = p # ps"
    by (cases "filter (\<lambda>p. p_id p = ?i) (products d)") (auto simp: filter_empty_conv)
  then have p: "p \<in> set (products d)" "p_id p = ?i"
    using filter_eq_ConsD [OF first] by auto
  have enough: "?q + ordered_quantity its ?i \<le> p_stock r" if "r \<in> set (products d)" "p_id r = ?i" for r
    using Cons.prems(4) that by (auto simp: ordered_quantity_Cons)
  have le: "?q \<le> p_stock r" if "r \<in> set (products d)" "p_id r = ?i" for r
    using enough [OF that] ordered_quantity_nonneg [OF pos, of ?i] by simp
  have valid: "product_violation r = None" if "r \<in> set (products d)" for r
    using Cons.prems(2) that by simp
  have "int4 ?q"
    using q le [OF p] valid [OF p(1)] by (simp add: violation_None_iff int4_def)
  moreover have "numeric_10_2 (p_price p)" "0 \<le> p_price p"
    using valid [OF p(1)] by (simp_all add: violation_None_iff)
  moreover have "?i \<in> set (map p_id (products d))" using p by force
  ultimately obtain d1 where
    d1: "insert_order_item oid ?i ?q (p_price p) d = Inr d1"
    using q Cons.prems(1) by (auto simp: insert_order_item_def Let_def)
  note i1 = insert_order_item_Inr [OF d1]
  let ?low = "\<lambda>p. if p_id p = ?i then p\<lparr>p_stock := p_stock p - ?q\<rparr> else p"
  have "\<forall>r\<in>set (map (\<lambda>p. p\<lparr>p_stock := p_stock p - ?q\<rparr>) (filter (\<lambda>p. p_id p = ?i) (products d1))).
          product_violation r = None"
    using q le valid by (auto simp: i1(1) intro!: violation_None_lower)
  then have "List.map_filter product_violation
      (map (\<lambda>p. p\<lparr>p_stock := p_stock p - ?q\<rparr>) (filter (\<lambda>p. p_id p = ?i) (products d1))) = []"
    by (simp only: map_filter_Nil_iff)
  with \<open>int4 ?q\<close> obtain d2 where
    d2: "decrement_stock ?q ?i d1 = Inr d2"
    by (simp add: decrement_stock_def Let_def)
  note i2 = decrement_stock_Inr [OF d2]
  have prod2: "products d2 = map ?low (products d)" by (simp add: i2(1) i1(1))
  have "\<exists>d'. create_items oid its d2 = Inr d' \<and>
     map item_columns (order_items d') =
       map item_columns (order_items d2) @
       map (\<lambda>it. (oid, product_id it, quantity it, price_of d2 (product_id it))) its"
  proof (rule Cons.IH)
    show "oid \<in> set (map o_id (orders d2))" using Cons.prems(1) by (simp add: i2(2) i1(2))
    show "\<forall>p\<in>set (products d2). product_violation p = None"
      using q le valid by (auto simp: prod2 intro!: violation_None_lower)
    show "\<forall>it\<in>set its. 0 < quantity it \<and> (\<exists>p\<in>set (products d2). p_id p = product_id it)"
    proof
      fix a assume a: "a \<in> set its"
      with Cons.prems(3) obtain r where "r \<in> set (products d)" "p_id r = product_id a" by auto
      then have "?low r \<in> set (products d2)" "p_id (?low r) = product_id a"
        by (auto simp: prod2)
      with a pos show "0 < quantity a \<and> (\<exists>p\<in>set (products d2). p_id p = product_id a)"
        by blast
    qed
    show "\<forall>p\<in>set (products d2). ordered_quantity its (p_id p) \<le> p_stock p"
    proof
      fix r' assume "r' \<in> set (products d2)"
      then obtain r where r: "r \<in> set (products d)" "r' = ?low r" by (auto simp: prod2)
      show "ordered_quantity its (p_id r') \<le> p_stock r'"
      proof (cases "p_id r = ?i")
        case True
        with enough [OF r(1) True] r(2) show ?thesis by simp
      next
        case False
        with Cons.prems(4) r show ?thesis by (auto simp: ordered_quantity_Cons)
      qed
    qed
  qed
  then obtain d' where
    d': "create_items oid its d2 = Inr d'"
    "map item_columns (order_items d') =
       map item_columns (order_items d2) @
       map (\<lambda>it. (oid, product_id it, quantity it, price_of d2 (product_id it))) its"
    by blast
  have "price_of d2 j = price_of d j" for j
    by (rule price_of_lowered [OF prod2])
  with d' first d1 d2 show ?case
    by (simp add: i2(3) i1(3) item_columns_row price_of_first [OF first])
qed


lemma ordered_quantity_unreferenced:
  "i \<notin> set (map product_id its) \<Longrightarrow> ordered_quantity its i = 0"
proof -
  assume "i \<notin> set (map product_id its)"
  then have "filter (\<lambda>it. product_id it = i) its = []"
    by (auto simp: filter_empty_conv)
  then show ?thesis by (simp add: ordered_quantity_def)
qed

lemma price_of_nonneg:
  assumes "\<forall>p\<in>set (products d). product_violation p = None"
  shows "0 \<le> price_of d i"
proof (cases "filter (\<lambda>p. p_id p = i) (products d)")
  case Nil
  then show ?thesis by (simp add: price_of_def)
next
  case (Cons p ps)
  with filter_eq_ConsD [OF Cons] assms have "product_violation p = None" by auto
  with Cons show ?thesis by (simp add: price_of_def violation_None_iff)
qed

lemma order_value_nonneg:
  assumes "\<forall>p\<in>set (products d). product_violation p = None"
    and "\<forall>it\<in>set its. 0 < quantity it"
  shows "0 \<le> order_value d its"
proof -
  have "0 \<le> price_of d (product_id it) * quantity it" if "it \<in> set its" for it
    using price_of_nonneg [OF assms(1), of "product_id it"] assms(2) that
    by (simp add: less_imp_le)
  then show ?thesis
    unfolding order_value_def by (intro sum_list_nonneg) auto
qed

lemma items_value_columns:
  "items_value ois = sum_list (map (\<lambda>(oid, i, q, pr). pr * q) (map item_columns ois))"
  by (simp add: items_value_def item_columns_def comp_def)

lemma items_of_columns:
  "map item_columns (items_of d oid) =
     filter (\<lambda>(o', i, q, pr). o' = oid) (map item_columns (order_items d))"
  by (simp add: items_of_def item_columns_def filter_map comp_def)

section \<open>The scenario evaluated\<close>

lemma product_A_sel:
  "p_id product_A = 1" "p_is_active product_A" "p_stock product_A = 5" "p_price product_A = 1000"
  by (simp_all add: product_A_def)

lemma int4in_eval: "int4in ''1'' = Inr 1" "int4in ''01'' = Inr 1" "int4in ''2'' = Inr 2"
  by (simp_all add: int4in_def is_space_def is_digit_def digit_value_def int4_def Let_def)

lemma scenario_read_eval:
  "get_product 100 ''1'' scenario = (Inr (FromDatabase, ProductRow product_A), scenario_read)"
  by (simp add: scenario_read_def get_product_def select_active_product_def int4in_eval
      redis_defs scenario_def empty_redis_def scenario_db_def product_A_sel)

lemma scenario_read_order:
  "fst (create_order (order_of_A [3]) scenario_read)
     = Inr \<lparr>o_id = 1, o_customer_name = ''Ann'', o_customer_email = ''ann@example.com'',
            o_total_amount = 3000, o_status = Pending\<rparr>"
  "map p_stock (products (db (snd (create_order (order_of_A [3]) scenario_read)))) = [2]"
  by (simp_all add: scenario_read_def get_product_def select_active_product_def int4in_eval
      redis_setEx_def redis_get_def order_eval_defs)

lemma scenario_fits:
  "schema_ok (db scenario)" "fits_order (db scenario) (order_of_A [3, 2])"
  "\<not> del_fails (cache scenario)"
  by (simp_all add: schema_ok_def fits_order_def filled_def order_value_def price_of_def
      ordered_quantity_def scenario_def scenario_db_def product_A_def order_of_A_def
      product_violation_def numeric_10_2_def int4_def empty_redis_def)

section \<open>Properties\<close>

text \<open>
  C1, a defect of the code. \<open>create_order\<close> is to be all-or-nothing: it succeeds fully or
  fails with nothing visible. In the scenario store, with a Redis server that rejects
  \<^verbatim>\<open>DEL\<close>, the order of 3 units of product A is answered with an error, and the order row
  of 30.00, its order item and the stock of 2 units are in the store all the same: the
  \<^verbatim>\<open>DEL\<close> runs after \<^verbatim>\<open>COMMIT\<close> inside the \<^verbatim>\<open>try\<close> whose \<^verbatim>\<open>catch\<close> rolls back.
\<close>

theorem create_order_error_after_commit:
  "fst (create_order (order_of_A [3]) scenario_del_rejected) = Inl (Internal RedisError)
   \<and> map o_total_amount (orders (db (snd (create_order (order_of_A [3]) scenario_del_rejected))))
       = [3000]
   \<and> map oi_quantity (order_items (db (snd (create_order (order_of_A [3]) scenario_del_rejected))))
       = [3]
   \<and> map p_stock (products (db (snd (create_order (order_of_A [3]) scenario_del_rejected))))
       = [2]
   \<and> orders (db scenario_del_rejected) = []
   \<and> order_items (db scenario_del_rejected) = []
   \<and> map p_stock (products (db scenario_del_rejected)) = [5]"
  by code_simp

text \<open>
  C3 as it is stated, refuted. Every valid order request is to succeed. The order of 3
  and again 3 units of product A, of which the store holds 5, is valid as stated: each
  item refers to an active product with stock at least its quantity. The first loop
  accepts both items, the second decrement violates \<^verbatim>\<open>CHECK (stock >= 0)\<close>, and the
  transaction is rolled back: no row of the store has changed.
\<close>

theorem stated_valid_order_fails:
  "stated_valid (db scenario) (order_of_A [3, 3])
   \<and> fst (create_order (order_of_A [3, 3]) scenario) = Inl (Internal CheckViolation)
   \<and> products (db (snd (create_order (order_of_A [3, 3]) scenario))) = products (db scenario)
   \<and> orders (db (snd (create_order (order_of_A [3, 3]) scenario))) = orders (db scenario)
   \<and> order_items (db (snd (create_order (order_of_A [3, 3]) scenario)))
       = order_items (db scenario)"
  by (simp add: scenario_twice_three)
    (simp add: stated_valid_def scenario_def scenario_db_def product_A_def order_of_A_def
      falsy_string_def)

text \<open>
  C3 as amended. On a store that satisfies its schema, with a Redis server that accepts
  \<^verbatim>\<open>DEL\<close>, an order request succeeds when its customer fields are not empty and fit
  their columns, its items are not empty and of positive quantity, every item refers to
  an active product, the items together order of each product at most its stock, and the
  value is below 100000000.00. The order is stored as pending, its order items are the
  requested items at the prices of the store, and its \<open>total_amount\<close> is the sum of price
  times quantity over its order items, amounts counted in cents.
\<close>

theorem valid_order_succeeds:
  assumes "schema_ok (db s)" and "fits_order (db s) req" and "\<not> del_fails (cache s)"
  shows "\<exists>ord s'. create_order req s = (Inr ord, s')
     \<and> ord \<in> set (orders (db s')) \<and> o_status ord = Pending
     \<and> o_total_amount ord = items_value (items_of (db s') (o_id ord))
     \<and> map (\<lambda>oi. (oi_product_id oi, oi_quantity oi, oi_price oi)) (items_of (db s') (o_id ord))
         = map (\<lambda>it. (product_id it, quantity it, price_of (db s) (product_id it))) (items req)"
proof -
  let ?d = "db s" and ?its = "items req"
  from assms(1) have valid: "\<forall>p\<in>set (products ?d). product_violation p = None"
    and fk: "\<forall>oi\<in>set (order_items ?d). oi_order_id oi \<in> set (map o_id (orders ?d))"
    and seq: "\<forall>ord\<in>set (orders ?d). o_id ord < orders_id_seq ?d"
    by (simp_all add: schema_ok_def list_all_iff)
  from assms(2) obtain n e where
    names: "customer_name req = Some n" "n \<noteq> []" "length n \<le> 255"
      "customer_email req = Some e" "e \<noteq> []" "length e \<le> 255"
    by (auto simp: fits_order_def filled_def split: option.splits)
  from assms(2) have ne: "?its \<noteq> []"
    and pos: "\<forall>it\<in>set ?its. 0 < quantity it"
    and ex: "\<forall>it\<in>set ?its. \<exists>p\<in>set (products ?d). p_id p = product_id it"
    and ref: "\<forall>p\<in>set (products ?d). p_id p \<in> set (map product_id ?its) \<longrightarrow>
        p_is_active p \<and> ordered_quantity ?its (p_id p) \<le> p_stock p"
    and bound: "order_value ?d ?its < 10000000000"
    by (auto simp: fits_order_def list_all_iff list_ex_iff)
  have enough: "\<forall>p\<in>set (products ?d). ordered_quantity ?its (p_id p) \<le> p_stock p"
  proof
    fix p assume p: "p \<in> set (products ?d)"
    show "ordered_quantity ?its (p_id p) \<le> p_stock p"
    proof (cases "p_id p \<in> set (map product_id ?its)")
      case True
      with ref p show ?thesis by blast
    next
      case False
      with valid p show ?thesis
        by (simp add: ordered_quantity_unreferenced violation_None_iff)
    qed
  qed
  have first: "\<exists>p ps.
      filter (\<lambda>p. p_id p = product_id it \<and> p_is_active p) (products ?d) = p # ps \<and>
      quantity it \<le> p_stock p \<and> p_price p = price_of ?d (product_id it)"
    if it: "it \<in> set ?its" for it
  proof -
    have same: "filter (\<lambda>p. p_id p = product_id it \<and> p_is_active p) (products ?d)
        = filter (\<lambda>p. p_id p = product_id it) (products ?d)"
      using ref it by (intro filter_cong) auto
    from ex it obtain p ps where
      f: "filter (\<lambda>p. p_id p = product_id it) (products ?d) = p # ps"
      by (cases "filter (\<lambda>p. p_id p = product_id it) (products ?d)")
        (auto simp: filter_empty_conv)
    from filter_eq_ConsD [OF f] have p: "p \<in> set (products ?d)" "p_id p = product_id it"
      by auto
    have "quantity it \<le> ordered_quantity ?its (product_id it)"
      by (rule quantity_le_ordered [OF it pos])
    also have "\<dots> \<le> p_stock p" using enough p by auto
    finally show ?thesis using same f by (auto simp: price_of_first [OF f])
  qed
  then have total: "calculate_total ?d ?its 0 = Inr (order_value ?d ?its)"
    using calculate_total_Inr [of ?its ?d 0] by simp
  have nonneg: "0 \<le> order_value ?d ?its" by (rule order_value_nonneg [OF valid pos])
  define ord where "ord =
    \<lparr>o_id = orders_id_seq ?d, o_customer_name = n, o_customer_email = e,
     o_total_amount = order_value ?d ?its, o_status = Pending\<rparr>"
  define d1 where "d1 = ?d\<lparr>orders_id_seq := Suc (orders_id_seq ?d), orders := orders ?d @ [ord]\<rparr>"
  have ins: "insert_order (customer_name req) (customer_email req) (order_value ?d ?its) ?d
      = Inr (ord, d1)"
    using names nonneg bound
    by (simp add: insert_order_def numeric_10_2_def Let_def ord_def d1_def)
  have "\<exists>d'. create_items (o_id ord) ?its d1 = Inr d' \<and>
     map item_columns (order_items d') =
       map item_columns (order_items d1) @
       map (\<lambda>it. (o_id ord, product_id it, quantity it, price_of d1 (product_id it))) ?its"
    by (rule create_items_succeeds) (use valid pos ex enough in \<open>auto simp: d1_def\<close>)
  then obtain d2 where
    items: "create_items (o_id ord) ?its d1 = Inr d2"
    and cols: "map item_columns (order_items d2) =
       map item_columns (order_items ?d) @
       map (\<lambda>it. (o_id ord, product_id it, quantity it, price_of ?d (product_id it))) ?its"
    by (auto simp: d1_def price_of_def)
  have txn: "order_transaction req ?d = Inr (ord, d2)"
    by (simp add: order_transaction_def total ins items)
  define s' where "s' = \<lparr>db = d2, cache = (cache s)\<lparr>entries := (entries (cache s))(ProductsAll := None)\<rparr>\<rparr>"
  have resp: "create_order req s = (Inr ord, s')"
    using names ne assms(3)
    by (simp add: create_order_def falsy_string_def txn redis_del_def s'_def)
  have old: "filter (\<lambda>(o', i, q, pr). o' = o_id ord) (map item_columns (order_items ?d)) = []"
  proof -
    have "oi_order_id oi \<noteq> orders_id_seq ?d" if "oi \<in> set (order_items ?d)" for oi
    proof -
      from fk that obtain o' where "o' \<in> set (orders ?d)" "o_id o' = oi_order_id oi" by auto
      with seq show ?thesis by force
    qed
    then show ?thesis by (auto simp: filter_empty_conv item_columns_def ord_def)
  qed
  have mine: "map item_columns (items_of d2 (o_id ord))
      = map (\<lambda>it. (o_id ord, product_id it, quantity it, price_of ?d (product_id it))) ?its"
  proof -
    have new: "filter (\<lambda>(o', i, q, pr). o' = o_id ord)
        (map (\<lambda>it. (o_id ord, product_id it, quantity it, price_of ?d (product_id it))) ?its)
      = map (\<lambda>it. (o_id ord, product_id it, quantity it, price_of ?d (product_id it))) ?its"
      by (simp add: filter_map comp_def)
    show ?thesis
      by (simp only: items_of_columns cols filter_append old new append_Nil)
  qed
  have "ord \<in> set (orders (db s'))"
    using order_transaction_Inr(3) [OF txn] by (simp add: s'_def)
  moreover have "o_status ord = Pending" by (simp add: ord_def)
  moreover have "o_total_amount ord = items_value (items_of (db s') (o_id ord))"
  proof -
    have "items_value (items_of d2 (o_id ord))
        = sum_list (map (\<lambda>(oid, i, q, pr). pr * q)
            (map (\<lambda>it. (o_id ord, product_id it, quantity it, price_of ?d (product_id it))) ?its))"
      by (simp only: items_value_columns mine)
    also have "\<dots> = order_value ?d ?its"
      by (simp add: order_value_def comp_def)
    finally show ?thesis by (simp add: s'_def ord_def)
  qed
  moreover have "map (\<lambda>oi. (oi_product_id oi, oi_quantity oi, oi_price oi)) (items_of (db s') (o_id ord))
         = map (\<lambda>it. (product_id it, quantity it, price_of ?d (product_id it))) ?its"
  proof -
    have "map (\<lambda>oi. (oi_product_id oi, oi_quantity oi, oi_price oi)) (items_of d2 (o_id ord))
        = map (\<lambda>(o', i, q, pr). (i, q, pr)) (map item_columns (items_of d2 (o_id ord)))"
      by (simp add: item_columns_def comp_def)
    also have "\<dots> = map (\<lambda>it. (product_id it, quantity it, price_of ?d (product_id it))) ?its"
      by (simp only: mine) (simp add: comp_def)
    finally show ?thesis by (simp add: s'_def)
  qed
  ultimately show ?thesis using resp by blast
qed


theorem valid_order_succeeds_witness:
  "schema_ok (db scenario) \<and> fits_order (db scenario) (order_of_A [3, 2])
   \<and> \<not> del_fails (cache scenario)
   \<and> (\<exists>ord s'. create_order (order_of_A [3, 2]) scenario = (Inr ord, s')
         \<and> ord \<in> set (orders (db s')) \<and> o_status ord = Pending
         \<and> o_total_amount ord = items_value (items_of (db s') (o_id ord))
         \<and> map (\<lambda>oi. (oi_product_id oi, oi_quantity oi, oi_price oi)) (items_of (db s') (o_id ord))
             = map (\<lambda>it. (product_id it, quantity it, price_of (db scenario) (product_id it)))
                 (items (order_of_A [3, 2])))
   \<and> fst (create_order (order_of_A [3, 2]) scenario)
       = Inr \<lparr>o_id = 1, o_customer_name = ''Ann'', o_customer_email = ''ann@example.com'',
              o_total_amount = 5000, o_status = Pending\<rparr>"
  using scenario_fits scenario_three_two(1)
    valid_order_succeeds [OF scenario_fits, of]
  by blast

text \<open>
  C4, a defect of the code. \<open>get_stats\<close> is to return the sum of \<open>total_amount\<close> over the
  orders as \<open>total_revenue\<close>. On the seeded store, whose four orders add up to 2399.93,
  it returns 35998.95: \<^verbatim>\<open>SUM\<close> runs over the cross join with the fifteen active products
  and counts every order fifteen times, where the three counts are \<^verbatim>\<open>DISTINCT\<close>.
\<close>

theorem get_stats_seed:
  "get_stats seed_db =
     \<lparr>total_orders = 4, total_products = 15, total_revenue = 3599895, pending_orders = 1\<rparr>
   \<and> sum_list (map o_total_amount (orders seed_db)) = 239993"
  by code_simp

text \<open>
  C5 as it is stated, refuted. A failed cache \<open>get\<close> is to behave as a miss and fall through
  to the store. With a Redis server that rejects \<^verbatim>\<open>GET\<close>, \<open>list_products\<close> and
  \<open>get_product\<close> answer with an internal error, where on a miss they return the row of
  the store.
\<close>

theorem failed_get_is_no_miss:
  "fst (list_products 0 scenario_get_rejected) = Inl (Internal RedisError)
   \<and> fst (list_products 0 scenario) = Inr (FromDatabase, ProductList [product_A])
   \<and> fst (get_product 0 ''1'' scenario_get_rejected) = Inl (Internal RedisError)
   \<and> fst (get_product 0 ''1'' scenario) = Inr (FromDatabase, ProductRow product_A)"
  by (simp add: list_products_def get_product_def select_active_product_def int4in_eval
        redis_defs empty_redis_def scenario_db_def scenario_def scenario_get_rejected_def
        select_active_products_def product_A_sel Let_def)

text \<open>
  C5 as amended. A failed cache command fails the read. When \<open>get\<close> fails,
  \<open>list_products\<close> and \<open>get_product\<close> answer with an internal error and leave the state
  as it is, without the rows of the store. When \<open>get\<close> misses and \<open>put\<close> fails,
  \<open>list_products\<close> answers with an internal error, and so does \<open>get_product\<close> unless the
  product is not found (where the route parameter is no integer, the internal error is
  the one of the statement); neither ever returns rows read from the store when \<open>put\<close>
  fails.
\<close>

theorem cache_failure_surfaces:
  "(get_fails (cache s) \<longrightarrow>
      list_products now s = (Inl (Internal RedisError), s) \<and>
      get_product now r s = (Inl (Internal RedisError), s))
   \<and> (setEx_fails (cache s) \<longrightarrow> redis_get now ProductsAll (cache s) = Inr None \<longrightarrow>
      list_products now s = (Inl (Internal RedisError), s))
   \<and> (setEx_fails (cache s) \<longrightarrow> redis_get now (ProductKey r) (cache s) = Inr None \<longrightarrow>
      get_product now r s = (Inl (Internal RedisError), s) \<or>
      get_product now r s = (Inl NotFound, s) \<or>
      (\<exists>e. int4in r = Inl e \<and> get_product now r s = (Inl (Internal e), s)))
   \<and> (setEx_fails (cache s) \<longrightarrow>
      (\<forall>v. fst (list_products now s) \<noteq> Inr (FromDatabase, v)) \<and>
      (\<forall>v. fst (get_product now r s) \<noteq> Inr (FromDatabase, v)))"
proof (intro conjI impI allI)
  assume "get_fails (cache s)"
  then show "list_products now s = (Inl (Internal RedisError), s)"
    and "get_product now r s = (Inl (Internal RedisError), s)"
    by (simp_all add: list_products_def get_product_def redis_get_def)
next
  assume "setEx_fails (cache s)" and "redis_get now ProductsAll (cache s) = Inr None"
  then show "list_products now s = (Inl (Internal RedisError), s)"
    by (simp add: list_products_def redis_setEx_def Let_def)
next
  assume "setEx_fails (cache s)" and "redis_get now (ProductKey r) (cache s) = Inr None"
  then show "get_product now r s = (Inl (Internal RedisError), s) \<or>
      get_product now r s = (Inl NotFound, s) \<or>
      (\<exists>e. int4in r = Inl e \<and> get_product now r s = (Inl (Internal e), s))"
    by (auto simp: get_product_def select_active_product_def redis_setEx_def
        split: list.splits sum.splits)
next
  fix v assume "setEx_fails (cache s)"
  then show "fst (list_products now s) \<noteq> Inr (FromDatabase, v)"
    by (auto simp: list_products_def redis_defs Let_def split: option.splits prod.splits)
next
  fix v assume "setEx_fails (cache s)"
  then show "fst (get_product now r s) \<noteq> Inr (FromDatabase, v)"
    by (auto simp: get_product_def redis_defs
        split: option.splits prod.splits list.splits sum.splits)
qed

theorem cache_failure_surfaces_witness:
  "get_fails (cache scenario_get_rejected)
   \<and> list_products 0 scenario_get_rejected = (Inl (Internal RedisError), scenario_get_rejected)
   \<and> get_product 0 ''1'' scenario_get_rejected
       = (Inl (Internal RedisError), scenario_get_rejected)
   \<and> setEx_fails (cache scenario_put_rejected)
   \<and> redis_get 0 ProductsAll (cache scenario_put_rejected) = Inr None
   \<and> redis_get 0 (ProductKey ''1'') (cache scenario_put_rejected) = Inr None
   \<and> list_products 0 scenario_put_rejected = (Inl (Internal RedisError), scenario_put_rejected)
   \<and> get_product 0 ''1'' scenario_put_rejected
       = (Inl (Internal RedisError), scenario_put_rejected)"
proof -
  have g: "get_fails (cache scenario_get_rejected)"
    by (simp add: scenario_get_rejected_def empty_redis_def)
  have p: "setEx_fails (cache scenario_put_rejected)"
    "redis_get 0 ProductsAll (cache scenario_put_rejected) = Inr None"
    "redis_get 0 (ProductKey ''1'') (cache scenario_put_rejected) = Inr None"
    by (simp_all add: scenario_put_rejected_def empty_redis_def redis_get_def)
  have found: "get_product 0 ''1'' scenario_put_rejected \<noteq> (Inl NotFound, scenario_put_rejected)"
    by (simp add: get_product_def select_active_product_def int4in_eval redis_defs
        scenario_put_rejected_def empty_redis_def scenario_db_def product_A_sel)
  have parsed: "\<forall>e. int4in ''1'' \<noteq> Inl e"
    by (simp add: int4in_eval)
  show ?thesis
    using g p found parsed cache_failure_surfaces [of scenario_get_rejected 0 "''1''"]
      cache_failure_surfaces [of scenario_put_rejected 0 "''1''"]
    by blast
qed

text \<open>
  C6, a defect of the code. After a successful \<open>update_product\<close> or \<open>delete_product\<close> of a
  product no later \<open>get_product\<close> of it is to return the data of before. The handlers
  delete the key \<^verbatim>\<open>product:${id}\<close> of the route parameter as spelled, while the statement
  addresses the row by the integer the parameter denotes. After \<^verbatim>\<open>GET /api/products/1\<close>
  cached product A at 10.00, \<^verbatim>\<open>PUT /api/products/01\<close> sets its price to 12.00 and deletes
  the key \<^verbatim>\<open>product:01\<close>; \<^verbatim>\<open>GET /api/products/1\<close> one second later answers from the
  cache with the row at 10.00. In the same way \<^verbatim>\<open>DELETE /api/products/01\<close> deactivates
  the product, and \<^verbatim>\<open>GET /api/products/1\<close> goes on serving it as active.
\<close>

theorem stale_read_after_mutation:
  "fst (get_product 100 ''1'' scenario) = Inr (FromDatabase, ProductRow product_A)
   \<and> p_price product_A = 1000
   \<and> fst (update_product ''01'' new_price scenario_read) = Inr (product_A\<lparr>p_price := 1200\<rparr>)
   \<and> map p_price (products (db (snd (update_product ''01'' new_price scenario_read)))) = [1200]
   \<and> fst (get_product 101 ''1'' (snd (update_product ''01'' new_price scenario_read)))
       = Inr (FromCache, ProductRow product_A)
   \<and> fst (delete_product ''01'' scenario_read) = Inr ()
   \<and> map p_is_active (products (db (snd (delete_product ''01'' scenario_read)))) = [False]
   \<and> fst (get_product 101 ''1'' (snd (delete_product ''01'' scenario_read)))
       = Inr (FromCache, ProductRow product_A)"
  by code_simp

text \<open>
  C7, a defect of the code, the one of C1. An order is to fail with no change of state,
  or to succeed with every stock lowered by what it orders. In the scenario store, with a
  Redis server that rejects \<^verbatim>\<open>DEL\<close>, the order of 3 units of product A is not answered
  with success, and the stock of product A has gone from 5 to 2. (No stock is ever
  negative all the same, by \<open>stock_ok_run\<close>, and an order whose transaction fails changes
  no row, by \<open>failed_transaction_keeps_rows\<close>.)
\<close>

theorem failed_order_lowers_stock:
  "(\<forall>ord. fst (create_order (order_of_A [3]) scenario_del_rejected) \<noteq> Inr ord)
   \<and> products (db (snd (create_order (order_of_A [3]) scenario_del_rejected)))
       = decremented (items (order_of_A [3])) (products (db scenario_del_rejected))
   \<and> map p_stock (products (db scenario_del_rejected)) = [5]
   \<and> map p_stock (decremented (items (order_of_A [3])) (products (db scenario_del_rejected)))
       = [2]
   \<and> stock_ok (db (snd (create_order (order_of_A [3]) scenario_del_rejected)))"
  by (simp add: order_eval_defs scenario_del_rejected_def decremented_def ordered_quantity_def
      stock_ok_def)

text \<open>
  C8, a defect of the code. \<open>create_product\<close> is to accept a price of exactly 0. A request
  with name, category and price 0 is answered with the validation error for missing
  fields and nothing is stored: \<^verbatim>\<open>!price\<close> is true of the number 0.
\<close>

theorem create_product_rejects_price_zero:
  "create_product free_sample scenario = (Inl MissingFields, scenario)
   \<and> f_price free_sample = Some 0"
  by (simp add: create_product_def falsy_number_def falsy_string_def free_sample_def)



text \<open>
  C10. A successful \<open>create_order\<close> removes the key \<^verbatim>\<open>products:all\<close> and leaves the entry
  of every key \<^verbatim>\<open>product:${id}\<close> as it was, while the stock in the store goes down. So when
  \<open>get_product\<close> read the product at route \<open>r\<close> from the store at second \<open>t0\<close> before the
  order, a \<open>get_product\<close> at the same route after the order returns that same row from
  the cache, with the stock of before the order, at every second before \<open>t0 + 600\<close>, and
  not from then on.
\<close>

theorem order_keeps_product_entries:
  assumes "create_order req s = (Inr ord, s')"
  shows "entries (cache s') ProductsAll = None
    \<and> (\<forall>k. entries (cache s') (ProductKey k) = entries (cache s) (ProductKey k))
    \<and> products (db s') = decremented (items req) (products (db s))
    \<and> (\<forall>t0 s0 v. get_product t0 r s0 = (Inr (FromDatabase, v), s) \<longrightarrow>
          store_answer (db s) r = Inr v \<and>
          (\<forall>t. t < t0 + 600 \<longrightarrow> get_product t r s' = (Inr (FromCache, v), s')) \<and>
          (\<forall>t. t0 + 600 \<le> t \<longrightarrow> (\<forall>w. fst (get_product t r s') \<noteq> Inr (FromCache, w))))"
proof (intro conjI allI impI)
  note c = create_order_Inr [OF assms]
  show "entries (cache s') ProductsAll = None" by (simp add: c(1))
  show "entries (cache s') (ProductKey k) = entries (cache s) (ProductKey k)" for k
    by (simp add: c(1))
  show "products (db s') = decremented (items req) (products (db s))"
    by (rule order_transaction_Inr(1) [OF c(2)])
  fix t0 s0 v
  assume g: "get_product t0 r s0 = (Inr (FromDatabase, v), s)"
  note e = get_product_FromDatabase [OF g]
  show "store_answer (db s) r = Inr v"
    using e(3,4) by simp
  show "get_product t r s' = (Inr (FromCache, v), s')" if "t < t0 + 600" for t
    using that e(1,2) by (simp add: get_product_def redis_get_def c(1))
  show "fst (get_product t r s') \<noteq> Inr (FromCache, w)" if "t0 + 600 \<le> t" for t w
    using that e(1,2)
    by (auto simp: get_product_def redis_defs c(1) split: list.splits sum.splits)
qed

theorem order_keeps_product_entries_witness:
  "create_order (order_of_A [3]) scenario_read
     = (Inr \<lparr>o_id = 1, o_customer_name = ''Ann'', o_customer_email = ''ann@example.com'',
             o_total_amount = 3000, o_status = Pending\<rparr>,
        snd (create_order (order_of_A [3]) scenario_read))
   \<and> get_product 100 ''1'' scenario = (Inr (FromDatabase, ProductRow product_A), scenario_read)
   \<and> get_product 699 ''1'' (snd (create_order (order_of_A [3]) scenario_read))
       = (Inr (FromCache, ProductRow product_A), snd (create_order (order_of_A [3]) scenario_read))
   \<and> p_stock product_A = 5
   \<and> map p_stock (products (db (snd (create_order (order_of_A [3]) scenario_read)))) = [2]
   \<and> (\<forall>w. fst (get_product 700 ''1'' (snd (create_order (order_of_A [3]) scenario_read)))
          \<noteq> Inr (FromCache, w))"
proof -
  have h: "create_order (order_of_A [3]) scenario_read
     = (Inr \<lparr>o_id = 1, o_customer_name = ''Ann'', o_customer_email = ''ann@example.com'',
             o_total_amount = 3000, o_status = Pending\<rparr>,
        snd (create_order (order_of_A [3]) scenario_read))"
    using scenario_read_order(1) by (simp add: prod_eq_iff)
  have a: "p_stock product_A = 5" by (simp add: product_A_def)
  have b: "(699::nat) < 100 + 600" "(100::nat) + 600 \<le> 700" by simp_all
  show ?thesis
    using h a b scenario_read_eval scenario_read_order(2)
      order_keeps_product_entries [OF h, of "''1''"]
    by blast
qed

end
